theory Spec2Isabelle
  imports Complex_Main "HOL-Library.Char_ord" "HOL-Library.List_Lexorder"
begin

section \<open>The instance list of libmultimc\<close>

text \<open>
  A shallow embedding of \<^verbatim>\<open>libmultimc/src/instancelist.cpp\<close> and of the enum
  \<^verbatim>\<open>InstLoadError\<close> of \<^verbatim>\<open>libmultimc/include/instanceloader.h\<close>.

  The member functions of \<^verbatim>\<open>InstanceList\<close> become functions that take the object
  (\<open>this\<close>) and return it updated, together with the trace of what they did to the
  outside: the texts printed by \<^verbatim>\<open>qDebug\<close> and \<^verbatim>\<open>qWarning\<close>, the signals emitted
  and the calls made to the instance loader, in program order. A call whose
  behaviour is undefined returns a fault instead. Everything the file
  reads from outside (the file system, Qt's JSON parser and conversions, the loader)
  is a field of an environment record.
\<close>

subsection \<open>Instances and the list object\<close>

text \<open>
  \<^verbatim>\<open>Instance\<close> is declared in \<^verbatim>\<open>instance.h\<close>; this file reads \<^verbatim>\<open>id()\<close> and
  \<^verbatim>\<open>name()\<close> and writes the group with \<^verbatim>\<open>setGroup\<close>. An \<^verbatim>\<open>InstancePtr\<close>
  (\<^verbatim>\<open>QSharedPointer<Instance>\<close>) and the raw \<^verbatim>\<open>Instance *\<close> of the loader may be
  null: \<open>None\<close>.
\<close>

record Instance =
  inst_id :: string
  inst_name :: string
  inst_group :: string

type_synonym InstancePtr = "Instance option"

definition setGroup :: "string \<Rightarrow> Instance \<Rightarrow> Instance" where
  "setGroup g inst = inst\<lparr>inst_group := g\<rparr>"

datatype InstLoadError = NoLoadError | UnknownLoadError | NotAnInstance

datatype InstListError = NoError

record InstanceList =
  qobject_parent :: "nat option"
  m_instDir :: string
  m_instances :: "InstancePtr list"

datatype signal = invalidated | instanceAdded int | instanceChanged int

text \<open>
  What a call does to the outside: the text \<^verbatim>\<open>qDebug\<close> or \<^verbatim>\<open>qWarning\<close> prints, a
  signal emitted, a call of the instance loader for a directory.
\<close>

datatype effect =
    qDebug string
  | qWarning string
  | emit signal
  | loadInstanceCall string

text \<open>
  Undefined behaviour of the source is a fault of the model: a null pointer
  dereferenced, and a \<^verbatim>\<open>printf\<close> format that asks for an argument that was not passed.
\<close>

datatype fault = NullPointerDereference | FormatArgumentMissing

subsection \<open>Logging\<close>

text \<open>
  \<^verbatim>\<open>qDebug(const char *msg, ...)\<close> and \<^verbatim>\<open>qWarning(const char *msg, ...)\<close> take their
  first argument as a \<^verbatim>\<open>printf\<close> format, and this file passes no further argument.
  In a format \<^verbatim>\<open>%%\<close> prints one percent sign; any other use of a percent sign starts a
  conversion, which has no argument to read here: undefined behaviour. \<open>printf_text\<close>
  is the text printed, \<open>None\<close> when the format has such a conversion.
\<close>

fun printf_text :: "string \<Rightarrow> string option" where
  "printf_text [] = Some []"
| "printf_text [c] = (if c = CHR ''%'' then None else Some [c])"
| "printf_text (c # d # s) =
     (if c = CHR ''%'' then
        (if d = CHR ''%'' then map_option ((#) c) (printf_text s) else None)
      else map_option ((#) c) (printf_text (d # s)))"

definition printf_log :: "(string \<Rightarrow> effect) \<Rightarrow> string \<Rightarrow> fault + effect" where
  "printf_log level msg =
     (case printf_text msg of None \<Rightarrow> Inl FormatArgumentMissing | Some t \<Rightarrow> Inr (level t))"

text \<open>\<^verbatim>\<open>QString::number(n)\<close> and \<^verbatim>\<open>arg(n)\<close> for an integer: its decimal digits.\<close>

fun digits :: "nat \<Rightarrow> string" where
  "digits n =
     (if n < 10 then [''0123456789'' ! n]
      else digits (n div 10) @ [''0123456789'' ! (n mod 10)])"

declare digits.simps [simp del]

definition number :: "int \<Rightarrow> string" where
  "number i = (if i < 0 then CHR ''-'' # digits (nat (- i)) else digits (nat i))"

text \<open>The values of the enum \<^verbatim>\<open>InstLoadError\<close>, as \<^verbatim>\<open>arg(error)\<close> prints them.\<close>

fun errorCode :: "InstLoadError \<Rightarrow> int" where
  "errorCode NoLoadError = 0"
| "errorCode UnknownLoadError = 1"
| "errorCode NotAnInstance = 2"

text \<open>
  The texts this file builds with \<^verbatim>\<open>QString(...).arg(...)\<close> and hands over with
  \<^verbatim>\<open>toUtf8()\<close>, in the order of the source.
\<close>

definition parseErrorText :: "string \<Rightarrow> int \<Rightarrow> string" where
  "parseErrorText errorString offset =
     ''Failed to parse instance group file: '' @ errorString @ '' at offset '' @ number offset"

definition groupNotObjectText :: "string \<Rightarrow> string" where
  "groupNotObjectText groupName =
     ''Group '' @ [CHR 0x27] @ groupName @ [CHR 0x27] @ '' in the group list should be an object.''"

definition groupInvalidText :: "string \<Rightarrow> string" where
  "groupInvalidText groupName =
     ''Group '' @ [CHR 0x27] @ groupName @ [CHR 0x27]
       @ '' in the group list is invalid. It should contain an array called ''
       @ [CHR 0x27] @ ''instances'' @ [CHR 0x27] @ ''.''"

definition failedToLoadText :: "string \<Rightarrow> InstLoadError \<Rightarrow> string" where
  "failedToLoadText base error =
     (''Failed to load instance '' @ base @ '': '')
       @ (''Unknown instance loader error '' @ number (errorCode error))"

definition returnedNullText :: "string \<Rightarrow> string" where
  "returnedNullText base =
     ''Error loading instance '' @ base @ ''. Instance loader returned null.''"

definition loadedText :: "string \<Rightarrow> string" where
  "loadedText name = ''Loaded instance '' @ name"

definition GROUP_FILE_FORMAT_VERSION :: int where
  "GROUP_FILE_FORMAT_VERSION = 1"

text \<open>The constructor: \<^verbatim>\<open>QObject(parent), m_instDir("instances")\<close>, an empty list.\<close>

definition InstanceList_ctor :: "string \<Rightarrow> nat option \<Rightarrow> InstanceList" where
  "InstanceList_ctor instDir parent =
     \<lparr>qobject_parent = parent, m_instDir = ''instances'', m_instances = []\<rparr>"

definition count :: "InstanceList \<Rightarrow> int" where
  "count this = int (length (m_instances this))"

definition clear :: "InstanceList \<Rightarrow> InstanceList \<times> effect list" where
  "clear this = (this\<lparr>m_instances := []\<rparr>, [emit invalidated])"

text \<open>\<^verbatim>\<open>add\<close> returns the new index, the object and the signal it emitted.\<close>

definition add :: "InstanceList \<Rightarrow> InstancePtr \<Rightarrow> int \<times> InstanceList \<times> effect list" where
  "add this t =
     (let this' = this\<lparr>m_instances := m_instances this @ [t]\<rparr>
      in (count this' - 1, this', [emit (instanceAdded (count this' - 1))]))"

subsection \<open>getInstanceById\<close>

text \<open>
  The \<^verbatim>\<open>while (iter.hasNext())\<close> loop. The third argument is the local \<^verbatim>\<open>inst\<close>,
  a null pointer before the first round. \<^verbatim>\<open>inst->id()\<close> on a null pointer is
  undefined behaviour: the model stops with \<open>Inl NullPointerDereference\<close>. The loop
  returns the value of \<^verbatim>\<open>inst\<close> at its exit, which is also the item the iterator
  last stepped over (\<^verbatim>\<open>iter.peekPrevious()\<close>).
\<close>

fun getInstanceById_loop :: "InstancePtr list \<Rightarrow> string \<Rightarrow> InstancePtr \<Rightarrow> fault + InstancePtr" where
  "getInstanceById_loop [] instId inst = Inr inst"
| "getInstanceById_loop (p # rest) instId inst =
     (case p of
        None \<Rightarrow> Inl NullPointerDereference
      | Some i \<Rightarrow> if inst_id i = instId then Inr p else getInstanceById_loop rest instId p)"

definition getInstanceById :: "InstanceList \<Rightarrow> string \<Rightarrow> fault + InstancePtr" where
  "getInstanceById this instId =
     (case getInstanceById_loop (m_instances this) instId None of
        Inl f \<Rightarrow> Inl f
      | Inr inst \<Rightarrow>
          (case inst of
             None \<Rightarrow> Inl NullPointerDereference
           | Some i \<Rightarrow> if inst_id i \<noteq> instId then Inr None else Inr inst))"

subsection \<open>Qt's JSON values\<close>

text \<open>
  A \<^verbatim>\<open>QJsonValue\<close> as this file sees it. The members of an object are listed in the
  order in which \<^verbatim>\<open>begin()\<close> .. \<^verbatim>\<open>end()\<close> visits them. A JSON number is a double in
  Qt; the model keeps its value and leaves every conversion of it to the environment.
\<close>

datatype QJsonValue =
    JNull
  | JBool bool
  | JDouble real
  | JString string
  | JArray "QJsonValue list"
  | JObject "(string \<times> QJsonValue) list"
  | JUndefined

fun isObject :: "QJsonValue \<Rightarrow> bool" where
  "isObject (JObject ms) = True"
| "isObject v = False"

fun isArray :: "QJsonValue \<Rightarrow> bool" where
  "isArray (JArray vs) = True"
| "isArray v = False"

text \<open>\<^verbatim>\<open>toObject()\<close>, \<^verbatim>\<open>toArray()\<close> and \<^verbatim>\<open>toString()\<close> return an empty object, an
  empty array and a null string when the value has another type.\<close>

fun toObject :: "QJsonValue \<Rightarrow> (string \<times> QJsonValue) list" where
  "toObject (JObject ms) = ms"
| "toObject v = []"

fun toArray :: "QJsonValue \<Rightarrow> QJsonValue list" where
  "toArray (JArray vs) = vs"
| "toArray v = []"

fun toString :: "QJsonValue \<Rightarrow> string" where
  "toString (JString s) = s"
| "toString v = []"

text \<open>\<^verbatim>\<open>QJsonObject::value(key)\<close>: the member, or \<^verbatim>\<open>QJsonValue::Undefined\<close>.\<close>

definition QJsonObject_value :: "(string \<times> QJsonValue) list \<Rightarrow> string \<Rightarrow> QJsonValue" where
  "QJsonObject_value ms key = (case map_of ms key of None \<Rightarrow> JUndefined | Some v \<Rightarrow> v)"



subsection \<open>The environment\<close>

text \<open>
  What the file asks of Qt, of \<^verbatim>\<open>pathutils.h\<close> and of the instance loader:
  \<^item> \<open>fileExists p\<close>: \<^verbatim>\<open>QFileInfo(p).exists()\<close>;
  \<^item> \<open>fileReadAll p\<close>: \<^verbatim>\<open>QFile::open(QIODevice::ReadOnly)\<close> and \<^verbatim>\<open>readAll()\<close>,
    \<open>None\<close> when the file cannot be opened;
  \<^item> \<open>fromJson s\<close>: \<^verbatim>\<open>QJsonDocument::fromJson\<close>, the error string and offset of a
    parse error, or the document's root (\<open>JNull\<close> for an empty document);
  \<^item> \<open>toInt v\<close>: \<^verbatim>\<open>v.toVariant().toInt()\<close>;
  \<^item> \<open>dirEntries d\<close>: the paths a \<^verbatim>\<open>QDirIterator\<close> over \<open>d\<close> returns, in its order;
  \<^item> \<open>PathCombine\<close>: the function of \<^verbatim>\<open>pathutils.h\<close>;
  \<^item> \<open>baseName p\<close>: \<^verbatim>\<open>QFileInfo(p).baseName()\<close>;
  \<^item> \<open>loadInstance d\<close>: \<^verbatim>\<open>InstanceLoader::loadInstance(instPtr, d)\<close>, the pointer it
    leaves in \<^verbatim>\<open>instPtr\<close> (null before the call) and the error code it returns.
\<close>

record env =
  fileExists :: "string \<Rightarrow> bool"
  fileReadAll :: "string \<Rightarrow> string option"
  fromJson :: "string \<Rightarrow> (string \<times> int) + QJsonValue"
  toInt :: "QJsonValue \<Rightarrow> int"
  dirEntries :: "string \<Rightarrow> string list"
  PathCombine :: "string \<Rightarrow> string \<Rightarrow> string"
  baseName :: "string \<Rightarrow> string"
  loadInstance :: "string \<Rightarrow> InstancePtr \<times> InstLoadError"

subsection \<open>loadGroupList\<close>

text \<open>The inner loop: \<^verbatim>\<open>groupMap[(*iter2).toString()] = groupName\<close> for every entry.\<close>

fun loadGroupList_instances :: "QJsonValue list \<Rightarrow> string \<Rightarrow> (string \<rightharpoonup> string) \<Rightarrow> (string \<rightharpoonup> string)" where
  "loadGroupList_instances [] groupName groupMap = groupMap"
| "loadGroupList_instances (v # vs) groupName groupMap =
     loadGroupList_instances vs groupName (groupMap(toString v \<mapsto> groupName))"

text \<open>
  The loop over the groups. A group that is skipped is reported with \<^verbatim>\<open>qWarning\<close>
  first, the text with the group's name being the format; \<^verbatim>\<open>continue\<close> then goes on
  with the next member.
\<close>

fun loadGroupList_groups ::
  "(string \<times> QJsonValue) list \<Rightarrow> (string \<rightharpoonup> string) \<times> effect list
     \<Rightarrow> fault + (string \<rightharpoonup> string) \<times> effect list" where
  "loadGroupList_groups [] st = Inr st"
| "loadGroupList_groups ((groupName, v) # rest) (groupMap, tr) =
     (if \<not> isObject v then
        (case printf_log qWarning (groupNotObjectText groupName) of
           Inl f \<Rightarrow> Inl f
         | Inr w \<Rightarrow> loadGroupList_groups rest (groupMap, tr @ [w]))
      else if \<not> isArray (QJsonObject_value (toObject v) ''instances'') then
        (case printf_log qWarning (groupInvalidText groupName) of
           Inl f \<Rightarrow> Inl f
         | Inr w \<Rightarrow> loadGroupList_groups rest (groupMap, tr @ [w]))
      else
        loadGroupList_groups rest
          (loadGroupList_instances (toArray (QJsonObject_value (toObject v) ''instances''))
             groupName groupMap, tr))"

text \<open>
  \<^verbatim>\<open>loadGroupList(groupMap)\<close> writes into the map of its caller; the model takes that
  map and returns it with the trace. Every \<^verbatim>\<open>return\<close> of the source is a branch.
\<close>

definition loadGroupList ::
  "env \<Rightarrow> InstanceList \<Rightarrow> (string \<rightharpoonup> string) \<Rightarrow> fault + (string \<rightharpoonup> string) \<times> effect list" where
  "loadGroupList e this groupMap =
     (let groupFileName = m_instDir this @ ''/instgroups.json'' in
      if \<not> fileExists e groupFileName then Inr (groupMap, [])
      else
        (case fileReadAll e groupFileName of
           None \<Rightarrow>
             (case printf_log qDebug ''Failed to read instance group file.'' of
                Inl f \<Rightarrow> Inl f
              | Inr d \<Rightarrow> Inr (groupMap, [d]))
         | Some jsonStr \<Rightarrow>
             (case fromJson e jsonStr of
                Inl (errorString, offset) \<Rightarrow>
                  (case printf_log qWarning (parseErrorText errorString offset) of
                     Inl f \<Rightarrow> Inl f
                   | Inr w \<Rightarrow> Inr (groupMap, [w]))
              | Inr jsonDoc \<Rightarrow>
                  if \<not> isObject jsonDoc then
                    (case printf_log qWarning ''Invalid group file. Root entry should be an object.'' of
                       Inl f \<Rightarrow> Inl f
                     | Inr w \<Rightarrow> Inr (groupMap, [w]))
                  else
                    (let rootObj = toObject jsonDoc in
                     if toInt e (QJsonObject_value rootObj ''formatVersion'') \<noteq> GROUP_FILE_FORMAT_VERSION
                     then Inr (groupMap, [])
                     else if \<not> isObject (QJsonObject_value rootObj ''groups'')
                     then
                       (case printf_log qWarning
                               (''Invalid group list JSON: '' @ [CHR 0x27] @ ''groups'' @ [CHR 0x27]
                                  @ '' should be an object.'') of
                          Inl f \<Rightarrow> Inl f
                        | Inr w \<Rightarrow> Inr (groupMap, [w]))
                     else loadGroupList_groups (toObject (QJsonObject_value rootObj ''groups''))
                            (groupMap, [])))))"

subsection \<open>loadList\<close>

text \<open>\<^verbatim>\<open>groupMap.find(inst->id())\<close> and, when the id is a key, \<^verbatim>\<open>inst->setGroup(*iter)\<close>.\<close>

definition assignGroup :: "(string \<rightharpoonup> string) \<Rightarrow> Instance \<Rightarrow> Instance" where
  "assignGroup groupMap inst =
     (case groupMap (inst_id inst) of Some g \<Rightarrow> setGroup g inst | None \<Rightarrow> inst)"

text \<open>
  One round of the \<^verbatim>\<open>while (iter.hasNext())\<close> loop, for the entry \<open>subDir\<close>. The two
  \<^verbatim>\<open>switch\<close> statements of the source choose nothing (the first has two empty cases,
  the second only \<^verbatim>\<open>default\<close>); the \<^verbatim>\<open>if\<close> chain decides. Each branch prints with
  \<^verbatim>\<open>qDebug\<close>, the text being the format; in the last branch this comes before the
  instance is appended. \<^verbatim>\<open>setParent\<close> and \<^verbatim>\<open>connect\<close> touch Qt's object tree only,
  which the model does not carry.
\<close>

definition loadList_body ::
  "env \<Rightarrow> (string \<rightharpoonup> string) \<Rightarrow> string \<Rightarrow> InstanceList \<times> effect list
     \<Rightarrow> fault + InstanceList \<times> effect list" where
  "loadList_body e groupMap subDir st =
     (case st of (this, tr) \<Rightarrow>
        if \<not> fileExists e (PathCombine e subDir ''instance.cfg'') then Inr (this, tr)
        else
          (case loadInstance e subDir of (instPtr, error) \<Rightarrow>
             (let tr1 = tr @ [loadInstanceCall subDir] in
              if error \<noteq> NoLoadError \<and> error \<noteq> NotAnInstance then
                (case printf_log qDebug (failedToLoadText (baseName e subDir) error) of
                   Inl f \<Rightarrow> Inl f
                 | Inr d \<Rightarrow> Inr (this, tr1 @ [d]))
              else
                (case instPtr of
                   None \<Rightarrow>
                     (case printf_log qDebug (returnedNullText (baseName e subDir)) of
                        Inl f \<Rightarrow> Inl f
                      | Inr d \<Rightarrow> Inr (this, tr1 @ [d]))
                 | Some loaded \<Rightarrow>
                     (let inst = assignGroup groupMap loaded in
                      case printf_log qDebug (loadedText (inst_name inst)) of
                        Inl f \<Rightarrow> Inl f
                      | Inr d \<Rightarrow>
                          Inr (this\<lparr>m_instances := m_instances this @ [Some inst]\<rparr>, tr1 @ [d]))))))"

fun loadList_loop ::
  "env \<Rightarrow> (string \<rightharpoonup> string) \<Rightarrow> string list \<Rightarrow> InstanceList \<times> effect list
     \<Rightarrow> fault + InstanceList \<times> effect list" where
  "loadList_loop e groupMap [] st = Inr st"
| "loadList_loop e groupMap (subDir # rest) st =
     (case loadList_body e groupMap subDir st of
        Inl f \<Rightarrow> Inl f
      | Inr st' \<Rightarrow> loadList_loop e groupMap rest st')"

definition loadList :: "env \<Rightarrow> InstanceList \<Rightarrow> fault + InstListError \<times> InstanceList \<times> effect list" where
  "loadList e this =
     (case loadGroupList e this Map.empty of
        Inl f \<Rightarrow> Inl f
      | Inr (groupMap, tr0) \<Rightarrow>
          (let this1 = this\<lparr>m_instances := []\<rparr> in
           case loadList_loop e groupMap (dirEntries e (m_instDir this1)) (this1, tr0) of
             Inl f \<Rightarrow> Inl f
           | Inr (this2, tr1) \<Rightarrow> Inr (NoError, this2, tr1 @ [emit invalidated])))"

subsection \<open>Notions used to state the properties\<close>

text \<open>The document \<open>loadGroupList\<close> obtains: the group file exists, opens and parses.\<close>

definition groupDocument :: "env \<Rightarrow> InstanceList \<Rightarrow> QJsonValue option" where
  "groupDocument e this =
     (if fileExists e (m_instDir this @ ''/instgroups.json'') then
        (case fileReadAll e (m_instDir this @ ''/instgroups.json'') of
           None \<Rightarrow> None
         | Some jsonStr \<Rightarrow> (case fromJson e jsonStr of Inl err \<Rightarrow> None | Inr jsonDoc \<Rightarrow> Some jsonDoc))
      else None)"

text \<open>A group the loop does not skip: an object that has an array \<open>instances\<close>.\<close>

definition groupAccepted :: "QJsonValue \<Rightarrow> bool" where
  "groupAccepted v = (isObject v \<and> isArray (QJsonObject_value (toObject v) ''instances''))"

definition instancesOf :: "QJsonValue \<Rightarrow> QJsonValue list" where
  "instancesOf v = toArray (QJsonObject_value (toObject v) ''instances'')"

fun isString :: "QJsonValue \<Rightarrow> bool" where
  "isString (JString s) = True"
| "isString v = False"

text \<open>The pairs (key, group name) the loops store for a list of groups, in the order
  of the groups and, inside a group, of its array: one pair for every entry of every
  group that is not skipped.\<close>

definition recordedPairs :: "(string \<times> QJsonValue) list \<Rightarrow> (string \<times> string) list" where
  "recordedPairs groups =
     concat (map (\<lambda>(groupName, v). map (\<lambda>x. (toString x, groupName)) (instancesOf v))
               (filter (\<lambda>(groupName, v). groupAccepted v) groups))"


text \<open>The name of every group that is skipped is a format without conversion.\<close>

definition skippedNamesPlain :: "(string \<times> QJsonValue) list \<Rightarrow> bool" where
  "skippedNamesPlain groups =
     list_all (\<lambda>(groupName, v). groupAccepted v \<or> printf_text groupName \<noteq> None) groups"

text \<open>The warnings of the loop over the groups, one for each group it skips, as
  printed.\<close>

fun groupWarnings :: "(string \<times> QJsonValue) list \<Rightarrow> effect list" where
  "groupWarnings [] = []"
| "groupWarnings ((groupName, v) # rest) =
     (if \<not> isObject v then
        (case printf_text (groupNotObjectText groupName) of
           Some t \<Rightarrow> qWarning t # groupWarnings rest | None \<Rightarrow> groupWarnings rest)
      else if \<not> isArray (QJsonObject_value (toObject v) ''instances'') then
        (case printf_text (groupInvalidText groupName) of
           Some t \<Rightarrow> qWarning t # groupWarnings rest | None \<Rightarrow> groupWarnings rest)
      else groupWarnings rest)"


definition hasMarker :: "env \<Rightarrow> string \<Rightarrow> bool" where
  "hasMarker e subDir = fileExists e (PathCombine e subDir ''instance.cfg'')"


definition appended :: "env \<Rightarrow> string \<Rightarrow> bool" where
  "appended e subDir =
     (case loadInstance e subDir of
        (Some inst, error) \<Rightarrow> error = NoLoadError \<or> error = NotAnInstance
      | (None, error) \<Rightarrow> False)"





text \<open>Of a list of directory entries: those that hold the marker file \<^verbatim>\<open>instance.cfg\<close>,
  and of these the ones for which the loader answers \<open>NoLoadError\<close> with an instance.\<close>

definition markedDirs :: "env \<Rightarrow> string list \<Rightarrow> string list" where
  "markedDirs e dirs = filter (hasMarker e) dirs"


text \<open>The instance the loader returned for a directory, after the group lookup.\<close>

definition adopted :: "env \<Rightarrow> (string \<rightharpoonup> string) \<Rightarrow> string \<Rightarrow> InstancePtr" where
  "adopted e groupMap subDir = map_option (assignGroup groupMap) (fst (loadInstance e subDir))"


text \<open>The name that one round of the loop puts into its text: the name of the instance
  when one is appended, the base name of the directory otherwise. The text the round
  prints, given that name as printed.\<close>

definition loggedName :: "env \<Rightarrow> string \<Rightarrow> string" where
  "loggedName e subDir =
     (case loadInstance e subDir of
        (Some inst, error) \<Rightarrow>
          (if error = UnknownLoadError then baseName e subDir else inst_name inst)
      | (None, error) \<Rightarrow> baseName e subDir)"

definition loggedText :: "env \<Rightarrow> string \<Rightarrow> string \<Rightarrow> string" where
  "loggedText e subDir t =
     (case loadInstance e subDir of
        (Some inst, error) \<Rightarrow>
          (if error = UnknownLoadError then failedToLoadText t UnknownLoadError else loadedText t)
      | (None, error) \<Rightarrow>
          (if error = UnknownLoadError then failedToLoadText t UnknownLoadError else returnedNullText t))"

text \<open>No round of the loop over these entries prints a text with a conversion.\<close>

definition scanNamesPlain :: "env \<Rightarrow> string list \<Rightarrow> bool" where
  "scanNamesPlain e dirs =
     list_all (\<lambda>d. hasMarker e d \<longrightarrow> printf_text (loggedName e d) \<noteq> None) dirs"

text \<open>What the loop over these entries does to the outside when no text has a
  conversion: for every entry with the marker file, the call of the loader and the
  text printed.\<close>

fun scanTrace :: "env \<Rightarrow> string list \<Rightarrow> effect list" where
  "scanTrace e [] = []"
| "scanTrace e (d # dirs) =
     (if hasMarker e d then
        (case printf_text (loggedName e d) of
           Some t \<Rightarrow> [loadInstanceCall d, qDebug (loggedText e d t)]
         | None \<Rightarrow> [])
      else []) @ scanTrace e dirs"

subsection \<open>Sample environments\<close>

text \<open>
  Concrete environments for the examples: the files that exist, the root of the group
  file's document, the entries of the instance directory and the loader's answers
  are given; paths are joined with a slash, and the base name of a path is its last
  segment up to the first dot. The conversion to \<open>int\<close> rounds a number as
  \<^verbatim>\<open>qRound64\<close> does, reads a boolean as 0 or 1 and gives 0 otherwise (Qt's conversion
  also reads a string that spells a number, which no example uses).
\<close>

definition sample_toInt :: "QJsonValue \<Rightarrow> int" where
  "sample_toInt v =
     (case v of JDouble d \<Rightarrow> \<lfloor>d + 1 / 2\<rfloor> | JBool b \<Rightarrow> (if b then 1 else 0) | other \<Rightarrow> 0)"

definition sample_baseName :: "string \<Rightarrow> string" where
  "sample_baseName p =
     takeWhile (\<lambda>c. c \<noteq> CHR ''.'') (rev (takeWhile (\<lambda>c. c \<noteq> CHR ''/'') (rev p)))"

definition sample_env ::
  "string list \<Rightarrow> QJsonValue \<Rightarrow> string list \<Rightarrow> (string \<Rightarrow> InstancePtr \<times> InstLoadError) \<Rightarrow> env" where
  "sample_env files doc entries loader =
     \<lparr>fileExists = (\<lambda>p. p \<in> set files),
      fileReadAll = (\<lambda>p. if p \<in> set files then Some [] else None),
      fromJson = (\<lambda>s. Inr doc),
      toInt = sample_toInt,
      dirEntries = (\<lambda>d. entries),
      PathCombine = (\<lambda>a b. a @ ''/'' @ b),
      baseName = sample_baseName,
      loadInstance = loader\<rparr>"

definition sample_instance :: "string \<Rightarrow> Instance" where
  "sample_instance n = \<lparr>inst_id = n, inst_name = n, inst_group = []\<rparr>"

definition sample_list :: InstanceList where
  "sample_list = InstanceList_ctor ''somewhere'' None"

definition sample_loader :: "(string \<times> InstancePtr \<times> InstLoadError) list \<Rightarrow> string \<Rightarrow> InstancePtr \<times> InstLoadError" where
  "sample_loader answers d = (case map_of answers d of Some r \<Rightarrow> r | None \<Rightarrow> (None, UnknownLoadError))"

definition sample_group :: "QJsonValue list \<Rightarrow> QJsonValue" where
  "sample_group entries = JObject [(''instances'', JArray entries)]"

definition sample_root :: "QJsonValue \<Rightarrow> (string \<times> QJsonValue) list \<Rightarrow> QJsonValue" where
  "sample_root version groups = JObject [(''formatVersion'', version), (''groups'', JObject groups)]"

definition sample_groupFile :: "QJsonValue \<Rightarrow> env" where
  "sample_groupFile doc = sample_env [''instances/instgroups.json''] doc [] (sample_loader [])"

section \<open>Properties\<close>

subsection \<open>Formats\<close>

lemma printf_text_no_percent: "CHR ''%'' \<notin> set s \<Longrightarrow> printf_text s = Some s"
  by (induction s rule: printf_text.induct) auto

lemma printf_text_append_Some:
  "printf_text a = Some ta \<Longrightarrow>
   printf_text (a @ b) = (case printf_text b of None \<Rightarrow> None | Some tb \<Rightarrow> Some (ta @ tb))"
proof (induction a arbitrary: ta rule: printf_text.induct)
  case 1
  then show ?case by (simp split: option.splits)
next
  case (2 c)
  then show ?case
    by (cases b) (auto split: if_splits option.splits)
next
  case (3 c d s)
  then show ?case
    by (auto split: if_splits option.splits)
qed

lemma printf_text_append_None:
  "printf_text a = None \<Longrightarrow> CHR ''%'' \<notin> set b \<Longrightarrow> printf_text (a @ b) = None"
proof (induction a rule: printf_text.induct)
  case 1
  then show ?case by simp
next
  case (2 c)
  then show ?case by (cases b) (auto split: if_splits)
next
  case (3 c d s)
  then show ?case by (auto split: if_splits)
qed

lemma printf_text_affix:
  assumes "CHR ''%'' \<notin> set a" and "CHR ''%'' \<notin> set b"
  shows "printf_text (a @ n @ b) = (case printf_text n of None \<Rightarrow> None | Some t \<Rightarrow> Some (a @ t @ b))"
proof -
  have nb: "printf_text (n @ b) = (case printf_text n of None \<Rightarrow> None | Some t \<Rightarrow> Some (t @ b))"
  proof (cases "printf_text n")
    case None
    then show ?thesis using printf_text_append_None[OF None assms(2)] by simp
  next
    case (Some t)
    then show ?thesis
      using printf_text_append_Some[OF Some, of b] printf_text_no_percent[OF assms(2)] by simp
  qed
  have "printf_text (a @ (n @ b)) =
          (case printf_text (n @ b) of None \<Rightarrow> None | Some tb \<Rightarrow> Some (a @ tb))"
    by (rule printf_text_append_Some[OF printf_text_no_percent[OF assms(1)]])
  then show ?thesis by (simp add: nb split: option.splits)
qed

lemma printf_groupNotObjectText:
  "printf_text (groupNotObjectText g) =
     (case printf_text g of None \<Rightarrow> None | Some t \<Rightarrow> Some (groupNotObjectText t))"
proof -
  have eq: "groupNotObjectText x =
      (''Group '' @ [CHR 0x27]) @ x @ ([CHR 0x27] @ '' in the group list should be an object.'')" for x
    by (simp add: groupNotObjectText_def)
  show ?thesis unfolding eq by (rule printf_text_affix) simp_all
qed

lemma printf_groupInvalidText:
  "printf_text (groupInvalidText g) =
     (case printf_text g of None \<Rightarrow> None | Some t \<Rightarrow> Some (groupInvalidText t))"
proof -
  have eq: "groupInvalidText x =
      (''Group '' @ [CHR 0x27]) @ x @ ([CHR 0x27]
       @ '' in the group list is invalid. It should contain an array called ''
       @ [CHR 0x27] @ ''instances'' @ [CHR 0x27] @ ''.'')" for x
    by (simp add: groupInvalidText_def)
  show ?thesis unfolding eq by (rule printf_text_affix) simp_all
qed

lemma number_one: "number 1 = ''1''"
  by (simp add: number_def digits.simps[of "Suc 0"])

lemma printf_failedToLoadText:
  "printf_text (failedToLoadText b UnknownLoadError) =
     (case printf_text b of None \<Rightarrow> None | Some t \<Rightarrow> Some (failedToLoadText t UnknownLoadError))"
proof -
  have eq: "failedToLoadText x UnknownLoadError =
      ''Failed to load instance '' @ x @ ('': '' @ ''Unknown instance loader error '' @ ''1'')" for x
    by (simp add: failedToLoadText_def number_one)
  show ?thesis unfolding eq by (rule printf_text_affix) simp_all
qed

lemma printf_returnedNullText:
  "printf_text (returnedNullText b) =
     (case printf_text b of None \<Rightarrow> None | Some t \<Rightarrow> Some (returnedNullText t))"
  unfolding returnedNullText_def by (rule printf_text_affix) simp_all

lemma printf_loadedText:
  "printf_text (loadedText n) =
     (case printf_text n of None \<Rightarrow> None | Some t \<Rightarrow> Some (loadedText t))"
proof -
  have eq: "loadedText x = ''Loaded instance '' @ x @ []" for x
    by (simp add: loadedText_def)
  show ?thesis unfolding eq by (rule printf_text_affix) simp_all
qed

subsection \<open>Lookup by id\<close>

lemma getInstanceById_loop_find:
  "\<forall>p \<in> set ps. p \<noteq> None \<Longrightarrow>
   getInstanceById_loop ps instId inst =
     (case find (\<lambda>p. inst_id (the p) = instId) ps of
        Some p \<Rightarrow> Inr p
      | None \<Rightarrow> Inr (if ps = [] then inst else last ps))"
  by (induction ps arbitrary: inst) (auto split: option.splits)

text \<open>
  On a list that is not empty and holds no null pointer, the lookup returns the first
  instance whose id is \<open>instId\<close>, and the null pointer when there is none.
\<close>

lemma getInstanceById_nonempty:
  assumes ne: "m_instances this \<noteq> []" and nn: "\<forall>p \<in> set (m_instances this). p \<noteq> None"
  shows "getInstanceById this instId =
     Inr (case find (\<lambda>p. inst_id (the p) = instId) (m_instances this) of
            Some p \<Rightarrow> p | None \<Rightarrow> None)"
proof (cases "find (\<lambda>p. inst_id (the p) = instId) (m_instances this)")
  case None
  then have no: "\<forall>p \<in> set (m_instances this). inst_id (the p) \<noteq> instId"
    by (simp add: find_None_iff)
  from ne have "last (m_instances this) \<in> set (m_instances this)" by simp
  with nn no obtain i where "last (m_instances this) = Some i" "inst_id i \<noteq> instId"
    by fastforce
  with None ne nn show ?thesis
    by (simp add: getInstanceById_def getInstanceById_loop_find)
next
  case (Some p)
  then have "p \<in> set (m_instances this)" "inst_id (the p) = instId"
    by (auto simp: find_Some_iff)
  with nn obtain i where "p = Some i" "inst_id i = instId" by fastforce
  with Some nn show ?thesis
    by (simp add: getInstanceById_def getInstanceById_loop_find)
qed

text \<open>
  C1. \<open>getInstanceById\<close> is to return "not found" when no instance matches, also on an
  empty collection. On an empty collection the loop body never runs, \<^verbatim>\<open>inst\<close> is
  still the null pointer, and the test \<^verbatim>\<open>inst->id() != instId\<close> after the loop
  dereferences it: the call does not return "not found", whatever the id.
\<close>

theorem getInstanceById_empty_collection:
  "getInstanceById (this\<lparr>m_instances := []\<rparr>) instId = Inl NullPointerDereference"
  by (simp add: getInstanceById_def)

subsection \<open>Adding an instance\<close>

text \<open>
  C8. For every collection and every instance pointer, \<open>add\<close> appends the pointer at
  the end of the sequence, emits exactly one signal, \<open>instanceAdded\<close> with the index
  \<open>count - 1\<close> taken after the append (the index of the new element, that is the
  former length), and returns that index.
\<close>

theorem add_appends_and_emits_index:
  "(case add this t of (index, this', tr) \<Rightarrow>
      m_instances this' = m_instances this @ [t]
      \<and> m_instDir this' = m_instDir this
      \<and> tr = [emit (instanceAdded (count this' - 1))]
      \<and> index = count this' - 1
      \<and> index = int (length (m_instances this))
      \<and> m_instances this' ! nat index = t)"
  by (simp add: add_def count_def Let_def)

subsection \<open>The constructor\<close>

text \<open>
  C10. Whatever directory string the constructor is given, the root directory of the
  collection is the relative path \<open>instances\<close>: two constructor calls that differ in
  \<open>instDir\<close> only build the same object, so \<open>loadGroupList\<close> and \<open>loadList\<close> do the
  same on both.
\<close>

theorem ctor_ignores_instDir:
  "m_instDir (InstanceList_ctor instDir parent) = ''instances''
   \<and> InstanceList_ctor instDir parent = InstanceList_ctor instDir' parent
   \<and> loadGroupList e (InstanceList_ctor instDir parent) groupMap
       = loadGroupList e (InstanceList_ctor instDir' parent) groupMap
   \<and> loadList e (InstanceList_ctor instDir parent) = loadList e (InstanceList_ctor instDir' parent)"
  by (simp add: InstanceList_ctor_def)

subsection \<open>The group file\<close>

lemma loadGroupList_instances_eq:
  "loadGroupList_instances vs g m = m ++ map_of (rev (map (\<lambda>x. (toString x, g)) vs))"
  by (induction vs arbitrary: m) (simp_all add: map_of_append map_add_assoc[symmetric])

lemma skippedNamesPlain_Cons:
  "skippedNamesPlain ((g, v) # rest) =
     ((groupAccepted v \<or> printf_text g \<noteq> None) \<and> skippedNamesPlain rest)"
  by (simp add: skippedNamesPlain_def)

lemma recordedPairs_Cons:
  "recordedPairs ((g, v) # rest) =
     (if groupAccepted v then map (\<lambda>x. (toString x, g)) (instancesOf v) else []) @ recordedPairs rest"
  by (simp add: recordedPairs_def)

lemma recordedPairs_Nil: "recordedPairs [] = []"
  by (simp add: recordedPairs_def)

text \<open>
  The loop over the groups returns exactly when the name of every skipped group is a
  format without conversion; it then has stored the recorded pairs, a later pair
  replacing an earlier one with the same key, and printed one warning for each
  skipped group.
\<close>

lemma loadGroupList_groups_eq:
  "loadGroupList_groups gs (m, tr) =
     (if skippedNamesPlain gs
      then Inr (m ++ map_of (rev (recordedPairs gs)), tr @ groupWarnings gs)
      else Inl FormatArgumentMissing)"
proof (induction gs arbitrary: m tr)
  case Nil
  show ?case by (simp add: skippedNamesPlain_def recordedPairs_Nil)
next
  case (Cons a gs)
  obtain g v where a: "a = (g, v)" by (cases a)
  show ?case
  proof (cases "isObject v")
    case False
    then have na: "\<not> groupAccepted v" by (simp add: groupAccepted_def)
    show ?thesis
    proof (cases "printf_text g")
      case None
      with False na show ?thesis
        by (simp add: a printf_log_def printf_groupNotObjectText skippedNamesPlain_Cons)
    next
      case (Some t)
      with False na show ?thesis
        by (simp add: a printf_log_def printf_groupNotObjectText skippedNamesPlain_Cons
              recordedPairs_Cons Cons.IH)
    qed
  next
    case True
    show ?thesis
    proof (cases "isArray (QJsonObject_value (toObject v) ''instances'')")
      case False
      then have na: "\<not> groupAccepted v" by (simp add: groupAccepted_def)
      show ?thesis
      proof (cases "printf_text g")
        case None
        with True False na show ?thesis
          by (simp add: a printf_log_def printf_groupInvalidText skippedNamesPlain_Cons)
      next
        case (Some t)
        with True False na show ?thesis
          by (simp add: a printf_log_def printf_groupInvalidText skippedNamesPlain_Cons
                recordedPairs_Cons Cons.IH)
      qed
    next
      case isArr: True
      with True have acc: "groupAccepted v" by (simp add: groupAccepted_def)
      from True isArr acc show ?thesis
        by (simp add: a skippedNamesPlain_Cons recordedPairs_Cons Cons.IH
              loadGroupList_instances_eq instancesOf_def map_of_append map_add_assoc)
    qed
  qed
qed

lemma loadGroupList_parsed:
  assumes "groupDocument e this = Some (JObject rootObj)"
    and "toInt e (QJsonObject_value rootObj ''formatVersion'') = 1"
    and "QJsonObject_value rootObj ''groups'' = JObject groups"
  shows "loadGroupList e this m = loadGroupList_groups groups (m, [])"
  using assms
  by (auto simp: loadGroupList_def groupDocument_def GROUP_FILE_FORMAT_VERSION_def Let_def
           split: if_splits option.splits sum.splits)

lemma groupWarnings_accepted:
  "list_all (\<lambda>(groupName, v). groupAccepted v) gs \<Longrightarrow> groupWarnings gs = []"
  by (induction gs) (auto simp: groupAccepted_def)

lemma skippedNamesPlain_accepted:
  "list_all (\<lambda>(groupName, v). groupAccepted v) gs \<Longrightarrow> skippedNamesPlain gs"
  by (auto simp: skippedNamesPlain_def list_all_iff)

lemma recordedPairs_filter:
  "recordedPairs (filter (\<lambda>(groupName, v). groupAccepted v) gs) = recordedPairs gs"
  by (simp add: recordedPairs_def)

text \<open>The definitions of the sample environments, for evaluation.\<close>

lemmas sample_defs = sample_groupFile_def sample_env_def sample_root_def sample_group_def
  sample_list_def InstanceList_ctor_def sample_toInt_def sample_loader_def

lemma sample_groupDocument:
  "groupDocument (sample_groupFile doc) sample_list = Some doc"
  by (simp add: groupDocument_def sample_defs)

lemma sample_parsed:
  "loadGroupList (sample_groupFile (sample_root (JDouble 1) groups)) sample_list m =
     loadGroupList_groups groups (m, [])"
proof -
  have doc: "groupDocument (sample_groupFile (sample_root (JDouble 1) groups)) sample_list =
      Some (JObject [(''formatVersion'', JDouble 1), (''groups'', JObject groups)])"
    by (simp only: sample_groupDocument) (simp add: sample_root_def)
  have ver: "toInt (sample_groupFile (sample_root (JDouble 1) groups))
      (QJsonObject_value [(''formatVersion'', JDouble 1), (''groups'', JObject groups)] ''formatVersion'') = 1"
    by (simp add: sample_defs QJsonObject_value_def)
  have grp: "QJsonObject_value [(''formatVersion'', JDouble 1), (''groups'', JObject groups)] ''groups''
      = JObject groups"
    by (simp add: QJsonObject_value_def)
  show ?thesis by (rule loadGroupList_parsed[OF doc ver grp])
qed

text \<open>
  What the skipping of malformed groups comes to when no skipped group has a
  conversion in its name: the mapping is the one the accepted groups alone give, and
  each skipped group has its warning.
\<close>

lemma loadGroupList_skips_plain_groups:
  assumes "groupDocument e this = Some (JObject rootObj)"
    and "toInt e (QJsonObject_value rootObj ''formatVersion'') = 1"
    and "QJsonObject_value rootObj ''groups'' = JObject groups"
    and "skippedNamesPlain groups"
  shows "loadGroupList e this m = Inr (m ++ map_of (rev (recordedPairs groups)), groupWarnings groups)"
    and "loadGroupList_groups (filter (\<lambda>(groupName, v). groupAccepted v) groups) (m, []) =
           Inr (m ++ map_of (rev (recordedPairs groups)), [])"
proof -
  show "loadGroupList e this m = Inr (m ++ map_of (rev (recordedPairs groups)), groupWarnings groups)"
    by (simp add: loadGroupList_parsed[OF assms(1,2,3)] loadGroupList_groups_eq assms(4))
  have all: "list_all (\<lambda>(groupName, v). groupAccepted v) (filter (\<lambda>(groupName, v). groupAccepted v) groups)"
    by (auto simp: list_all_iff)
  show "loadGroupList_groups (filter (\<lambda>(groupName, v). groupAccepted v) groups) (m, []) =
           Inr (m ++ map_of (rev (recordedPairs groups)), [])"
    by (simp add: loadGroupList_groups_eq skippedNamesPlain_accepted[OF all]
          groupWarnings_accepted[OF all] recordedPairs_filter)
qed

text \<open>
  C5. A group whose value is not an object, or that has no array \<open>instances\<close>, is to
  be skipped while all remaining groups are still processed. The loop reports such a
  group with \<^verbatim>\<open>qWarning\<close> before it goes on, and the text it hands over, which holds
  the name of the group, is taken as the \<^verbatim>\<open>printf\<close> format: when the name of a skipped
  group has a conversion, the call is undefined behaviour and no mapping results,
  whatever the other groups are.
\<close>

theorem loadGroupList_skipped_group_name_is_format:
  assumes "groupDocument e this = Some (JObject rootObj)"
    and "toInt e (QJsonObject_value rootObj ''formatVersion'') = 1"
    and "QJsonObject_value rootObj ''groups'' = JObject groups"
    and "(groupName, v) \<in> set groups"
    and "\<not> groupAccepted v"
    and "printf_text groupName = None"
  shows "loadGroupList e this groupMap = Inl FormatArgumentMissing"
proof -
  have "\<not> skippedNamesPlain groups"
  proof
    assume "skippedNamesPlain groups"
    with assms(4) have "groupAccepted v \<or> printf_text groupName \<noteq> None"
      by (fastforce simp: skippedNamesPlain_def list_all_iff)
    with assms(5,6) show False by simp
  qed
  then show ?thesis
    by (simp add: loadGroupList_parsed[OF assms(1,2,3)] loadGroupList_groups_eq)
qed

theorem loadGroupList_skipped_group_name_is_format_witness:
  "groupDocument (sample_groupFile (sample_root (JDouble 1)
       [(''%s'', JDouble 5), (''good'', sample_group [JString ''a''])])) sample_list
     = Some (JObject [(''formatVersion'', JDouble 1), (''groups'', JObject
         [(''%s'', JDouble 5), (''good'', sample_group [JString ''a''])])])
   \<and> \<not> groupAccepted (JDouble 5)
   \<and> groupAccepted (sample_group [JString ''a''])
   \<and> printf_text ''%s'' = None
   \<and> loadGroupList (sample_groupFile (sample_root (JDouble 1)
       [(''%s'', JDouble 5), (''good'', sample_group [JString ''a''])])) sample_list Map.empty
       = Inl FormatArgumentMissing"
proof -
  let ?gs = "[(''%s'', JDouble 5), (''good'', sample_group [JString ''a''])]"
  let ?root = "[(''formatVersion'', JDouble 1), (''groups'', JObject ?gs)]"
  let ?e = "sample_groupFile (sample_root (JDouble 1) ?gs)"
  have doc: "groupDocument ?e sample_list = Some (JObject ?root)"
    by (simp only: sample_groupDocument) (simp add: sample_root_def)
  have ver: "toInt ?e (QJsonObject_value ?root ''formatVersion'') = 1"
    by (simp add: sample_defs QJsonObject_value_def)
  have grp: "QJsonObject_value ?root ''groups'' = JObject ?gs"
    by (simp add: QJsonObject_value_def)
  have mem: "(''%s'', JDouble 5) \<in> set ?gs" by simp
  have bad: "\<not> groupAccepted (JDouble 5)"
    by (simp add: groupAccepted_def)
  have good: "groupAccepted (sample_group [JString ''a''])"
    by (simp add: groupAccepted_def sample_group_def QJsonObject_value_def)
  have fmt: "printf_text ''%s'' = None" by simp
  have "loadGroupList ?e sample_list Map.empty = Inl FormatArgumentMissing"
    by (rule loadGroupList_skipped_group_name_is_format[OF doc ver grp mem bad fmt])
  with doc bad good fmt show ?thesis by blast
qed

text \<open>
  C7. Every input the parser gives up on is to yield an empty mapping and a logged
  warning, a missing file excepted. When the root is an object and the format version,
  as \<^verbatim>\<open>toVariant().toInt()\<close> reads it, is not 1, \<open>loadGroupList\<close> returns the mapping of
  its caller as it was (empty when called by \<open>loadList\<close>) and prints nothing: the
  version test is a bare \<^verbatim>\<open>return\<close>.
\<close>

theorem loadGroupList_version_mismatch_is_silent:
  assumes "groupDocument e this = Some (JObject rootObj)"
    and "toInt e (QJsonObject_value rootObj ''formatVersion'') \<noteq> 1"
  shows "loadGroupList e this groupMap = Inr (groupMap, [])"
  using assms
  by (auto simp: loadGroupList_def groupDocument_def GROUP_FILE_FORMAT_VERSION_def Let_def
           split: if_splits option.splits sum.splits)

theorem loadGroupList_version_mismatch_is_silent_witness:
  "groupDocument (sample_groupFile (sample_root (JDouble 2) [])) sample_list
     = Some (JObject [(''formatVersion'', JDouble 2), (''groups'', JObject [])])
   \<and> toInt (sample_groupFile (sample_root (JDouble 2) []))
         (QJsonObject_value [(''formatVersion'', JDouble 2), (''groups'', JObject [])] ''formatVersion'') = 2
   \<and> loadGroupList (sample_groupFile (sample_root (JDouble 2) [])) sample_list Map.empty
       = Inr (Map.empty, [])"
proof -
  let ?root = "[(''formatVersion'', JDouble 2), (''groups'', JObject [])]"
  let ?e = "sample_groupFile (sample_root (JDouble 2) [])"
  have doc: "groupDocument ?e sample_list = Some (JObject ?root)"
    by (simp only: sample_groupDocument) (simp add: sample_root_def)
  have ver: "toInt ?e (QJsonObject_value ?root ''formatVersion'') = 2"
    by (simp add: sample_defs QJsonObject_value_def)
  then have ne: "toInt ?e (QJsonObject_value ?root ''formatVersion'') \<noteq> 1" by simp
  have "loadGroupList ?e sample_list Map.empty = Inr (Map.empty, [])"
    by (rule loadGroupList_version_mismatch_is_silent[OF doc ne])
  with doc ver show ?thesis by blast
qed

text \<open>
  The tests around the version test print a warning before they return, and so do the
  two tests inside the loop; a missing file is passed over in silence.
\<close>

lemma loadGroupList_other_returns:
  "(\<not> fileExists e (m_instDir this @ ''/instgroups.json'') \<longrightarrow>
      loadGroupList e this groupMap = Inr (groupMap, []))
   \<and> (fileExists e (m_instDir this @ ''/instgroups.json'')
        \<and> fileReadAll e (m_instDir this @ ''/instgroups.json'') = None \<longrightarrow>
      loadGroupList e this groupMap = Inr (groupMap, [qDebug ''Failed to read instance group file.'']))
   \<and> (groupDocument e this = Some jsonDoc \<and> \<not> isObject jsonDoc \<longrightarrow>
      loadGroupList e this groupMap =
        Inr (groupMap, [qWarning ''Invalid group file. Root entry should be an object.'']))
   \<and> (groupDocument e this = Some (JObject rootObj)
        \<and> toInt e (QJsonObject_value rootObj ''formatVersion'') = 1
        \<and> \<not> isObject (QJsonObject_value rootObj ''groups'') \<longrightarrow>
      loadGroupList e this groupMap =
        Inr (groupMap, [qWarning (''Invalid group list JSON: '' @ [CHR 0x27] @ ''groups'' @ [CHR 0x27]
                                  @ '' should be an object.'')]))"
  by (auto simp: loadGroupList_def groupDocument_def GROUP_FILE_FORMAT_VERSION_def Let_def
        printf_log_def
      split: if_splits option.splits sum.splits)

lemma toString_not_string: "\<not> isString x \<Longrightarrow> toString x = []"
  by (cases x) simp_all

lemma recordedPairs_member:
  "(g, v) \<in> set gs \<Longrightarrow> groupAccepted v \<Longrightarrow> x \<in> set (instancesOf v) \<Longrightarrow>
   (toString x, g) \<in> set (recordedPairs gs)"
  unfolding recordedPairs_def by force

text \<open>
  C4. Entries of a group's array \<open>instances\<close> that are not strings are to be ignored,
  with no entry of the mapping made for them. The inner loop converts every entry
  with \<^verbatim>\<open>toString()\<close>, which gives the null string for an entry that is not a string,
  and stores the group under that key. For a file in which a group that is not
  skipped has an entry that is not a string: the call returns exactly when no skipped
  group has a conversion in its name, and whenever it returns, the mapping has an
  entry for the empty id.
\<close>

theorem loadGroupList_records_nonstring_entry:
  assumes "groupDocument e this = Some (JObject rootObj)"
    and "toInt e (QJsonObject_value rootObj ''formatVersion'') = 1"
    and "QJsonObject_value rootObj ''groups'' = JObject groups"
    and "(groupName, v) \<in> set groups" and "groupAccepted v"
    and "x \<in> set (instancesOf v)" and "\<not> isString x"
  shows "(\<exists>m tr. loadGroupList e this groupMap = Inr (m, tr)) = skippedNamesPlain groups
     \<and> (\<forall>m tr. loadGroupList e this groupMap = Inr (m, tr) \<longrightarrow> [] \<in> dom m)"
proof -
  have eq: "loadGroupList e this groupMap =
     (if skippedNamesPlain groups
      then Inr (groupMap ++ map_of (rev (recordedPairs groups)), groupWarnings groups)
      else Inl FormatArgumentMissing)"
    by (simp add: loadGroupList_parsed[OF assms(1,2,3)] loadGroupList_groups_eq)
  from recordedPairs_member[OF assms(4,5,6)] toString_not_string[OF assms(7)]
  have "([], groupName) \<in> set (recordedPairs groups)" by simp
  then have "[] \<in> fst ` set (rev (recordedPairs groups))" by force
  then have "[] \<in> dom (map_of (rev (recordedPairs groups)))"
    by (simp only: dom_map_of_conv_image_fst)
  then have d: "[] \<in> dom (groupMap ++ map_of (rev (recordedPairs groups)))"
    by simp
  show ?thesis
  proof (cases "skippedNamesPlain groups")
    case True
    with eq d show ?thesis by simp
  next
    case False
    with eq show ?thesis by simp
  qed
qed

theorem loadGroupList_records_nonstring_entry_witness:
  "groupDocument (sample_groupFile (sample_root (JDouble 1) [(''g'', sample_group [JString ''a'', JDouble 7])])) sample_list
     = Some (JObject [(''formatVersion'', JDouble 1),
                      (''groups'', JObject [(''g'', sample_group [JString ''a'', JDouble 7])])])
   \<and> groupAccepted (sample_group [JString ''a'', JDouble 7])
   \<and> instancesOf (sample_group [JString ''a'', JDouble 7]) = [JString ''a'', JDouble 7]
   \<and> \<not> isString (JDouble 7)
   \<and> skippedNamesPlain [(''g'', sample_group [JString ''a'', JDouble 7])]
   \<and> loadGroupList (sample_groupFile (sample_root (JDouble 1)
            [(''g'', sample_group [JString ''a'', JDouble 7])])) sample_list Map.empty
       = Inr ([''a'' \<mapsto> ''g'', [] \<mapsto> ''g''], [])
   \<and> [] \<in> dom [''a'' \<mapsto> ''g'', [] \<mapsto> ''g'']"
proof -
  let ?v = "sample_group [JString ''a'', JDouble 7]"
  let ?gs = "[(''g'', ?v)]"
  let ?root = "[(''formatVersion'', JDouble 1), (''groups'', JObject ?gs)]"
  let ?e = "sample_groupFile (sample_root (JDouble 1) ?gs)"
  have doc: "groupDocument ?e sample_list = Some (JObject ?root)"
    by (simp only: sample_groupDocument) (simp add: sample_root_def)
  have ver: "toInt ?e (QJsonObject_value ?root ''formatVersion'') = 1"
    by (simp add: sample_defs QJsonObject_value_def)
  have grp: "QJsonObject_value ?root ''groups'' = JObject ?gs"
    by (simp add: QJsonObject_value_def)
  have mem: "(''g'', ?v) \<in> set ?gs" by simp
  have acc: "groupAccepted ?v"
    by (simp add: groupAccepted_def sample_group_def QJsonObject_value_def)
  have ins: "instancesOf ?v = [JString ''a'', JDouble 7]"
    by (simp add: instancesOf_def sample_group_def QJsonObject_value_def)
  have x: "JDouble 7 \<in> set (instancesOf ?v)" by (simp add: ins)
  have ns: "\<not> isString (JDouble 7)" by simp
  have pl: "skippedNamesPlain ?gs"
    by (simp add: skippedNamesPlain_def acc)
  have m: "loadGroupList ?e sample_list Map.empty = Inr ([''a'' \<mapsto> ''g'', [] \<mapsto> ''g''], [])"
    unfolding sample_parsed
    by (simp add: sample_group_def QJsonObject_value_def)
  note T = loadGroupList_records_nonstring_entry[OF doc ver grp mem acc x ns, of Map.empty]
  from T m have d: "[] \<in> dom [''a'' \<mapsto> ''g'', [] \<mapsto> ''g'']" by blast
  from doc acc ins ns pl m d show ?thesis by blast
qed







subsection \<open>The scan of the instance directory\<close>


lemma inst_name_assignGroup: "inst_name (assignGroup gm inst) = inst_name inst"
  by (simp add: assignGroup_def setGroup_def split: option.splits)

text \<open>
  One round of the loop, for an entry with the marker file: it is undefined when the
  name it prints has a conversion; otherwise the loader is called once, one text is
  printed, and the instance is appended exactly when the loader returned one with
  \<open>NoLoadError\<close> or \<open>NotAnInstance\<close>.
\<close>

lemma loadList_body_marked:
  assumes "hasMarker e d"
  shows "loadList_body e gm d (this, tr) =
     (case printf_text (loggedName e d) of
        None \<Rightarrow> Inl FormatArgumentMissing
      | Some t \<Rightarrow>
          Inr (if appended e d then this\<lparr>m_instances := m_instances this @ [adopted e gm d]\<rparr> else this,
               tr @ [loadInstanceCall d, qDebug (loggedText e d t)]))"
proof -
  obtain p err where l: "loadInstance e d = (p, err)" by (cases "loadInstance e d")
  show ?thesis
  proof (cases err)
    case UnknownLoadError
    with assms l show ?thesis
      by (cases p)
         (simp_all add: loadList_body_def hasMarker_def loggedName_def loggedText_def appended_def
            printf_log_def printf_failedToLoadText split: option.splits)
  next
    case NoLoadError
    with assms l show ?thesis
      by (cases p)
         (simp_all add: loadList_body_def hasMarker_def loggedName_def loggedText_def appended_def
            adopted_def printf_log_def printf_returnedNullText printf_loadedText
            inst_name_assignGroup Let_def split: option.splits)
  next
    case NotAnInstance
    with assms l show ?thesis
      by (cases p)
         (simp_all add: loadList_body_def hasMarker_def loggedName_def loggedText_def appended_def
            adopted_def printf_log_def printf_returnedNullText printf_loadedText
            inst_name_assignGroup Let_def split: option.splits)
  qed
qed

lemma loadList_body_unmarked:
  "\<not> hasMarker e d \<Longrightarrow> loadList_body e gm d (this, tr) = Inr (this, tr)"
  by (simp add: loadList_body_def hasMarker_def)

lemma scanNamesPlain_Cons:
  "scanNamesPlain e (d # dirs) =
     ((hasMarker e d \<longrightarrow> printf_text (loggedName e d) \<noteq> None) \<and> scanNamesPlain e dirs)"
  by (simp add: scanNamesPlain_def)

text \<open>
  The loop returns exactly when no round prints a name with a conversion; it has then
  appended, in order, the instances of the entries that hold the marker file and for
  which the loader returned one with \<open>NoLoadError\<close> or \<open>NotAnInstance\<close>.
\<close>

lemma loadList_loop_eq:
  "loadList_loop e gm dirs (this, tr) =
     (if scanNamesPlain e dirs
      then Inr (this\<lparr>m_instances :=
                  m_instances this @ map (adopted e gm) (filter (appended e) (markedDirs e dirs))\<rparr>,
                tr @ scanTrace e dirs)
      else Inl FormatArgumentMissing)"
proof (induction dirs arbitrary: this tr)
  case Nil
  show ?case by (simp add: scanNamesPlain_def markedDirs_def)
next
  case (Cons d dirs)
  show ?case
  proof (cases "hasMarker e d")
    case False
    then show ?thesis
      by (simp add: loadList_body_unmarked Cons.IH scanNamesPlain_Cons markedDirs_def)
  next
    case True
    show ?thesis
    proof (cases "printf_text (loggedName e d)")
      case None
      with True show ?thesis
        by (simp add: loadList_body_marked scanNamesPlain_Cons)
    next
      case (Some t)
      with True show ?thesis
        by (simp add: loadList_body_marked Cons.IH scanNamesPlain_Cons markedDirs_def)
    qed
  qed
qed




lemma loadGroupList_instDir_only:
  "m_instDir this' = m_instDir this \<Longrightarrow> loadGroupList e this' m = loadGroupList e this m"
  by (simp add: loadGroupList_def)

text \<open>The whole of \<open>loadList\<close>, given what \<open>loadGroupList\<close> returned.\<close>

lemma loadList_eq:
  assumes "loadGroupList e this Map.empty = Inr (gm, tr0)"
  shows "loadList e this =
     (if scanNamesPlain e (dirEntries e (m_instDir this))
      then Inr (NoError,
                this\<lparr>m_instances :=
                  map (adopted e gm) (filter (appended e) (markedDirs e (dirEntries e (m_instDir this))))\<rparr>,
                tr0 @ scanTrace e (dirEntries e (m_instDir this)) @ [emit invalidated])
      else Inl FormatArgumentMissing)"
  by (simp add: loadList_def assms loadList_loop_eq Let_def)

lemma loadList_Inr_groupFile:
  "loadList e this = Inr r \<Longrightarrow> \<exists>gm tr0. loadGroupList e this Map.empty = Inr (gm, tr0)"
  by (cases "loadGroupList e this Map.empty") (auto simp: loadList_def)

text \<open>The definitions needed to evaluate a scan in a sample environment.\<close>

lemmas scan_defs = scanNamesPlain_def markedDirs_def hasMarker_def loggedName_def loggedText_def
  appended_def adopted_def assignGroup_def sample_env_def sample_loader_def sample_list_def
  InstanceList_ctor_def sample_instance_def sample_baseName_def


lemma sample_noGroupFile:
  "''instances/instgroups.json'' \<notin> set files \<Longrightarrow>
   loadGroupList (sample_env files doc entries loader) sample_list Map.empty = Inr (Map.empty, [])"
  by (simp add: loadGroupList_def sample_env_def sample_list_def InstanceList_ctor_def)












lemma appended_some: "appended e d \<Longrightarrow> fst (loadInstance e d) \<noteq> None"
  by (auto simp: appended_def split: prod.splits option.splits)

lemma loadList_Inr_state:
  assumes "loadList e this = Inr (r, this', tr)"
  shows "\<exists>gm tr0. loadGroupList e this Map.empty = Inr (gm, tr0)
     \<and> r = NoError
     \<and> this' = this\<lparr>m_instances :=
          map (adopted e gm) (filter (appended e) (markedDirs e (dirEntries e (m_instDir this))))\<rparr>"
proof -
  from loadList_Inr_groupFile[OF assms] obtain gm tr0
    where gf: "loadGroupList e this Map.empty = Inr (gm, tr0)" by blast
  from assms show ?thesis
    unfolding loadList_eq[OF gf] by (auto simp: gf split: if_splits)
qed

lemma loadList_ignores_instances:
  "loadList e (this\<lparr>m_instances := xs\<rparr>) = loadList e (this\<lparr>m_instances := []\<rparr>)"
proof -
  have g: "loadGroupList e (this\<lparr>m_instances := ys\<rparr>) Map.empty = loadGroupList e this Map.empty" for ys
    by (rule loadGroupList_instDir_only) simp
  show ?thesis unfolding loadList_def g by (simp split: sum.splits)
qed

text \<open>
  C9. Of two calls of \<open>loadList\<close> in a row, the second replaces what the first left:
  whatever the collection holds, \<open>loadList\<close> does what it does on an empty collection,
  and so does the second call after the first has returned; after the second call
  returns, each instance of the collection is one the loader returned during the
  second scan, for an entry of the directory that holds the marker file. An instance
  of the first load is there only if the second scan found it again.
\<close>

theorem loadList_twice_replaces:
  "(\<forall>xs. loadList e2 (this\<lparr>m_instances := xs\<rparr>) = loadList e2 (this\<lparr>m_instances := []\<rparr>))
   \<and> (loadList e1 this = Inr (r1, this1, tr1) \<longrightarrow>
        loadList e2 this1 = loadList e2 (this\<lparr>m_instances := []\<rparr>))
   \<and> (loadList e1 this = Inr (r1, this1, tr1) \<and> loadList e2 this1 = Inr (r2, this2, tr2) \<longrightarrow>
        (\<exists>groupMap tr0. loadGroupList e2 this Map.empty = Inr (groupMap, tr0)
          \<and> m_instances this2 =
               map (adopted e2 groupMap)
                 (filter (appended e2) (markedDirs e2 (dirEntries e2 (m_instDir this))))
          \<and> (\<forall>p \<in> set (m_instances this2).
                \<exists>d \<in> set (dirEntries e2 (m_instDir this)).
                  hasMarker e2 d \<and> fst (loadInstance e2 d) \<noteq> None \<and> p = adopted e2 groupMap d)))"
proof (intro conjI allI impI)
  fix xs
  show "loadList e2 (this\<lparr>m_instances := xs\<rparr>) = loadList e2 (this\<lparr>m_instances := []\<rparr>)"
    by (rule loadList_ignores_instances)
next
  assume first: "loadList e1 this = Inr (r1, this1, tr1)"
  from loadList_Inr_state[OF first] obtain xs where this1: "this1 = this\<lparr>m_instances := xs\<rparr>"
    by blast
  show "loadList e2 this1 = loadList e2 (this\<lparr>m_instances := []\<rparr>)"
    unfolding this1 by (rule loadList_ignores_instances)
next
  assume both: "loadList e1 this = Inr (r1, this1, tr1) \<and> loadList e2 this1 = Inr (r2, this2, tr2)"
  then have first: "loadList e1 this = Inr (r1, this1, tr1)"
    and second: "loadList e2 this1 = Inr (r2, this2, tr2)" by simp_all
  from loadList_Inr_state[OF first] obtain xs where this1: "this1 = this\<lparr>m_instances := xs\<rparr>"
    by blast
  have dir: "m_instDir this1 = m_instDir this" by (simp add: this1)
  from loadList_Inr_state[OF second] obtain gm tr0
    where gf1: "loadGroupList e2 this1 Map.empty = Inr (gm, tr0)"
      and st: "this2 = this1\<lparr>m_instances :=
          map (adopted e2 gm) (filter (appended e2) (markedDirs e2 (dirEntries e2 (m_instDir this1))))\<rparr>"
    by blast
  from gf1 have gf: "loadGroupList e2 this Map.empty = Inr (gm, tr0)"
    by (simp add: loadGroupList_instDir_only[OF dir])
  from st have m: "m_instances this2 =
      map (adopted e2 gm) (filter (appended e2) (markedDirs e2 (dirEntries e2 (m_instDir this))))"
    by (simp add: dir)
  have disc: "\<forall>p \<in> set (m_instances this2).
                \<exists>d \<in> set (dirEntries e2 (m_instDir this)).
                  hasMarker e2 d \<and> fst (loadInstance e2 d) \<noteq> None \<and> p = adopted e2 gm d"
  proof
    fix p
    assume "p \<in> set (m_instances this2)"
    then obtain d where d: "d \<in> set (markedDirs e2 (dirEntries e2 (m_instDir this)))"
      "appended e2 d" "p = adopted e2 gm d"
      unfolding m by auto
    from d(1) have "d \<in> set (dirEntries e2 (m_instDir this))" "hasMarker e2 d"
      by (simp_all add: markedDirs_def)
    with d(2,3) appended_some[OF d(2)]
    show "\<exists>d \<in> set (dirEntries e2 (m_instDir this)).
            hasMarker e2 d \<and> fst (loadInstance e2 d) \<noteq> None \<and> p = adopted e2 gm d"
      by blast
  qed
  from gf m disc
  show "\<exists>groupMap tr0. loadGroupList e2 this Map.empty = Inr (groupMap, tr0)
          \<and> m_instances this2 =
               map (adopted e2 groupMap)
                 (filter (appended e2) (markedDirs e2 (dirEntries e2 (m_instDir this))))
          \<and> (\<forall>p \<in> set (m_instances this2).
                \<exists>d \<in> set (dirEntries e2 (m_instDir this)).
                  hasMarker e2 d \<and> fst (loadInstance e2 d) \<noteq> None \<and> p = adopted e2 groupMap d)"
    by blast
qed

theorem loadList_twice_replaces_witness:
  "loadList
      (sample_env [''instances/a/instance.cfg'', ''instances/b/instance.cfg''] JNull
         [''instances/a'', ''instances/b'']
         (sample_loader [(''instances/a'', Some (sample_instance ''a''), NoLoadError),
                         (''instances/b'', Some (sample_instance ''b''), NoLoadError)]))
      sample_list
     = Inr (NoError, sample_list\<lparr>m_instances := [Some (sample_instance ''a''), Some (sample_instance ''b'')]\<rparr>,
            [loadInstanceCall ''instances/a'', qDebug (loadedText ''a''),
             loadInstanceCall ''instances/b'', qDebug (loadedText ''b''), emit invalidated])
   \<and> loadList
      (sample_env [''instances/b/instance.cfg'', ''instances/c/instance.cfg''] JNull
         [''instances/b'', ''instances/c'']
         (sample_loader [(''instances/b'', Some (sample_instance ''b''), NoLoadError),
                         (''instances/c'', Some (sample_instance ''c''), NoLoadError)]))
      (sample_list\<lparr>m_instances := [Some (sample_instance ''a''), Some (sample_instance ''b'')]\<rparr>)
     = Inr (NoError, sample_list\<lparr>m_instances := [Some (sample_instance ''b''), Some (sample_instance ''c'')]\<rparr>,
            [loadInstanceCall ''instances/b'', qDebug (loadedText ''b''),
             loadInstanceCall ''instances/c'', qDebug (loadedText ''c''), emit invalidated])"
proof -
  let ?e1 = "sample_env [''instances/a/instance.cfg'', ''instances/b/instance.cfg''] JNull
         [''instances/a'', ''instances/b'']
         (sample_loader [(''instances/a'', Some (sample_instance ''a''), NoLoadError),
                         (''instances/b'', Some (sample_instance ''b''), NoLoadError)])"
  let ?e2 = "sample_env [''instances/b/instance.cfg'', ''instances/c/instance.cfg''] JNull
         [''instances/b'', ''instances/c'']
         (sample_loader [(''instances/b'', Some (sample_instance ''b''), NoLoadError),
                         (''instances/c'', Some (sample_instance ''c''), NoLoadError)])"
  let ?this1 = "sample_list\<lparr>m_instances := [Some (sample_instance ''a''), Some (sample_instance ''b'')]\<rparr>"
  let ?this2 = "sample_list\<lparr>m_instances := [Some (sample_instance ''b''), Some (sample_instance ''c'')]\<rparr>"
  let ?tr2 = "[loadInstanceCall ''instances/b'', qDebug (loadedText ''b''),
             loadInstanceCall ''instances/c'', qDebug (loadedText ''c''), emit invalidated]"
  have first: "loadList ?e1 sample_list = Inr (NoError, ?this1,
            [loadInstanceCall ''instances/a'', qDebug (loadedText ''a''),
             loadInstanceCall ''instances/b'', qDebug (loadedText ''b''), emit invalidated])"
    by (subst loadList_eq[OF sample_noGroupFile]) (simp_all add: scan_defs)
  have fresh: "loadList ?e2 (sample_list\<lparr>m_instances := []\<rparr>) = Inr (NoError, ?this2, ?tr2)"
    by (simp add: sample_list_def InstanceList_ctor_def)
       (subst loadList_eq[OF sample_noGroupFile[unfolded sample_list_def InstanceList_ctor_def]],
        simp_all add: scan_defs)
  from loadList_twice_replaces[of ?e2 sample_list ?e1 NoError ?this1 _ NoError ?this2 ?tr2] first
  have "loadList ?e2 ?this1 = loadList ?e2 (sample_list\<lparr>m_instances := []\<rparr>)" by blast
  with fresh have "loadList ?e2 ?this1 = Inr (NoError, ?this2, ?tr2)" by simp
  with first show ?thesis by blast
qed

end
